theory Spec2Isabelle
  imports Complex_Main
begin

section \<open>Coach segmentation (src/utils/video\_processor.py)\<close>

text \<open>
  Python exceptions that the modelled functions can raise are values of \<open>py_error\<close>;
  a function that may raise returns \<open>py_error + 'a\<close> with \<open>Inl\<close> for the exception.

  Python floats are read as exact rationals. The float expressions of the source are
  quotients and products of machine-sized integers with the constants 15, 0.3, 0.5 and 3,
  followed by a comparison or by \<open>int()\<close>.
\<close>

datatype py_error = ZeroDivisionError | ValueError | CvError

datatype coach_type = Engine | Wagon

type_synonym boundary = "int \<times> int \<times> coach_type"

definition start_frame :: "boundary \<Rightarrow> int" where
  "start_frame b = fst b"

definition end_frame :: "boundary \<Rightarrow> int" where
  "end_frame b = fst (snd b)"

definition coach_type_of :: "boundary \<Rightarrow> coach_type" where
  "coach_type_of b = snd (snd b)"

text \<open>Python's \<open>int(x)\<close> on a float truncates towards zero.\<close>

definition py_int :: "rat \<Rightarrow> int" where
  "py_int q = (if 0 \<le> q then \<lfloor>q\<rfloor> else \<lceil>q\<rceil>)"

text \<open>\<^verbatim>\<open>num_coaches = min(12, max(6, int(duration / 15)))\<close>\<close>

definition num_coaches :: "rat \<Rightarrow> int" where
  "num_coaches duration = min 12 (max 6 (py_int (duration / 15)))"

text \<open>
  \<^verbatim>\<open>_detect_coach_boundaries(cap, fps)\<close>: \<open>total_frames\<close> is the frame count read from
  the capture. The operations that can raise are the true division \<open>total_frames / fps\<close>
  and the floor division \<open>total_frames // num_coaches\<close> (\<open>div\<close> on \<open>int\<close> rounds the same
  way), each with \<open>ZeroDivisionError\<close> on a zero divisor.
  The loop over \<open>range(num_coaches)\<close> appends one tuple per index.
\<close>

definition detect_coach_boundaries :: "int \<Rightarrow> int \<Rightarrow> py_error + boundary list" where
  "detect_coach_boundaries total_frames fps =
     (if fps = 0 then Inl ZeroDivisionError
      else
        let duration = (of_int total_frames :: rat) / of_int fps;
            n = num_coaches duration
        in if n = 0 then Inl ZeroDivisionError
           else
             let segment_length = total_frames div n
             in Inr (map (\<lambda>i. (i * segment_length,
                                min ((i + 1) * segment_length) total_frames,
                                if i = 0 then Engine else Wagon))
                         [0..n - 1]))"

text \<open>The properties of a segment list named by the specification.\<close>

definition contiguous :: "boundary list \<Rightarrow> bool" where
  "contiguous segs =
     (\<forall>i < length segs - 1. end_frame (segs ! i) = start_frame (segs ! Suc i))"

definition engine_first :: "boundary list \<Rightarrow> bool" where
  "engine_first segs =
     (\<forall>i < length segs. coach_type_of (segs ! i) = (if i = 0 then Engine else Wagon))"

definition exact_partition :: "int \<Rightarrow> boundary list \<Rightarrow> bool" where
  "exact_partition total_frames segs =
     (segs \<noteq> [] \<and> contiguous segs \<and> start_frame (hd segs) = 0 \<and>
      end_frame (last segs) = total_frames \<and> engine_first segs)"

definition clamp :: "int \<Rightarrow> int \<Rightarrow> int \<Rightarrow> int" where
  "clamp x lo hi = min hi (max lo x)"

text \<open>
  The segment count in the specification's words: the duration divided by 15, rounded
  to the nearest integer, clamped to the interval from 6 to 12.
\<close>

definition spec_num_coaches :: "int \<Rightarrow> int \<Rightarrow> int" where
  "spec_num_coaches total_frames fps =
     clamp (round ((of_int total_frames :: rat) / of_int fps / 15)) 6 12"

section \<open>Keyframe selection (src/utils/frame\_extractor.py)\<close>

text \<open>
  The image operations of OpenCV and scikit-image are not code of the repository; they
  are the fields of a backend record. \<open>'f\<close> is a decoded colour frame, \<open>'g\<close> a
  single-channel image. \<open>cvt_gray\<close> is \<^verbatim>\<open>cv2.cvtColor(frame, cv2.COLOR_BGR2GRAY)\<close>,
  \<open>shape\<close> is \<^verbatim>\<open>.shape\<close> (rows, columns), \<open>resize\<close> is \<^verbatim>\<open>cv2.resize(img, (width, height))\<close>
  and \<open>ssim\<close> is \<^verbatim>\<open>structural_similarity(a, b, data_range=255)\<close>; the last two can raise.
\<close>

record ('f, 'g) similarity_backend =
  cvt_gray :: "'f \<Rightarrow> 'g"
  shape :: "'g \<Rightarrow> nat \<times> nat"
  resize :: "'g \<Rightarrow> nat \<times> nat \<Rightarrow> py_error + 'g"
  ssim :: "'g \<Rightarrow> 'g \<Rightarrow> py_error + rat"

text \<open>
  A video file as \<^verbatim>\<open>cv2.VideoCapture\<close> presents it: whether it opens, the frame count
  of its metadata (\<^verbatim>\<open>CAP_PROP_FRAME_COUNT\<close>), and the frames that successive
  \<^verbatim>\<open>cap.read()\<close> calls return before the first failed read.
\<close>

record 'f video =
  cap_opened :: bool
  cap_frame_count :: int
  cap_frames :: "'f list"

text \<open>The body of the \<^verbatim>\<open>try\<close> block of \<^verbatim>\<open>_calculate_similarity\<close>.\<close>

definition similarity_body ::
  "('f, 'g) similarity_backend \<Rightarrow> 'g \<Rightarrow> 'g \<Rightarrow> py_error + rat" where
  "similarity_body B frame1 frame2 =
     (case (if shape B frame1 \<noteq> shape B frame2
            then resize B frame2 (snd (shape B frame1), fst (shape B frame1))
            else Inr frame2) of
        Inl e \<Rightarrow> Inl e
      | Inr frame2' \<Rightarrow>
          (case ssim B frame1 frame2' of
             Inl e \<Rightarrow> Inl e
           | Inr similarity \<Rightarrow> Inr (max 0 similarity)))"

text \<open>\<^verbatim>\<open>_calculate_similarity\<close>: \<^verbatim>\<open>except Exception\<close> turns every exception into 0.0.\<close>

definition calculate_similarity ::
  "('f, 'g) similarity_backend \<Rightarrow> 'g \<Rightarrow> 'g \<Rightarrow> rat" where
  "calculate_similarity B frame1 frame2 =
     (case similarity_body B frame1 frame2 of Inl e \<Rightarrow> 0 | Inr s \<Rightarrow> s)"

text \<open>The local variables of \<^verbatim>\<open>extract_key_frames\<close> that the loop updates.\<close>

record ('f, 'g) sel_state =
  frames :: "'f list"
  frame_count :: int
  reference_frame :: "'g option"

text \<open>
  The \<^verbatim>\<open>while True\<close> loop of \<^verbatim>\<open>extract_key_frames\<close>, by recursion on the frames still
  to be read: the empty list is the failed read that breaks the loop. The second
  \<^verbatim>\<open>break\<close>, on \<^verbatim>\<open>len(frames) >= target_frames\<close>, sits in the branch that appends a
  frame selected by similarity and nowhere else.
\<close>

fun select_loop ::
  "('f, 'g) similarity_backend \<Rightarrow> rat \<Rightarrow> int \<Rightarrow> int \<Rightarrow> 'f list \<Rightarrow>
   ('f, 'g) sel_state \<Rightarrow> ('f, 'g) sel_state" where
  "select_loop B similarity_threshold target_frames sample_interval [] st = st"
| "select_loop B similarity_threshold target_frames sample_interval (frame # rest) st =
     (if frame_count st mod sample_interval = 0 then
        (case reference_frame st of
           None \<Rightarrow>
             select_loop B similarity_threshold target_frames sample_interval rest
               (st\<lparr>reference_frame := Some (cvt_gray B frame),
                   frames := frames st @ [frame],
                   frame_count := frame_count st + 1\<rparr>)
         | Some reference \<Rightarrow>
             (if calculate_similarity B reference (cvt_gray B frame) < similarity_threshold
              then
                (if target_frames \<le> int (length (frames st @ [frame]))
                 then st\<lparr>frames := frames st @ [frame],
                         reference_frame := Some (cvt_gray B frame)\<rparr>
                 else
                   select_loop B similarity_threshold target_frames sample_interval rest
                     (st\<lparr>frames := frames st @ [frame],
                         reference_frame := Some (cvt_gray B frame),
                         frame_count := frame_count st + 1\<rparr>))
              else
                select_loop B similarity_threshold target_frames sample_interval rest
                  (st\<lparr>frame_count := frame_count st + 1\<rparr>)))
      else
        select_loop B similarity_threshold target_frames sample_interval rest
          (st\<lparr>frame_count := frame_count st + 1\<rparr>))"

definition initial_state :: "('f, 'g) sel_state" where
  "initial_state = \<lparr>frames = [], frame_count = 0, reference_frame = None\<rparr>"

text \<open>
  \<^verbatim>\<open>extract_key_frames(video_path, similarity_threshold, target_frames)\<close>. It raises
  \<open>ValueError\<close> when the capture does not open and \<open>ZeroDivisionError\<close> in
  \<^verbatim>\<open>total_frames // (target_frames * 3)\<close> when \<open>target_frames\<close> is 0. When the loop
  leaves no frame, the file is opened again and its first frame, if one can be read, is
  the result.
\<close>

definition extract_key_frames ::
  "('f, 'g) similarity_backend \<Rightarrow> 'f video \<Rightarrow> rat \<Rightarrow> int \<Rightarrow> py_error + 'f list" where
  "extract_key_frames B v similarity_threshold target_frames =
     (if \<not> cap_opened v then Inl ValueError
      else if target_frames * 3 = 0 then Inl ZeroDivisionError
      else
        let sample_interval = max 1 (cap_frame_count v div (target_frames * 3));
            fs = frames (select_loop B similarity_threshold target_frames sample_interval
                           (cap_frames v) initial_state)
        in if length fs = 0
           then (case cap_frames v of [] \<Rightarrow> Inr fs | frame # rest \<Rightarrow> Inr (fs @ [frame]))
           else Inr fs)"

text \<open>
  The selection in the specification's words: only the frames whose index is a multiple
  of the sample interval are considered; the first of them is selected and is the
  reference; each later one is selected when its similarity to the current reference is
  below the threshold, and is then the reference; the selection stops once
  \<open>target_count\<close> keyframes are collected or the frames are exhausted.
\<close>

fun sampled_from :: "int \<Rightarrow> int \<Rightarrow> 'f list \<Rightarrow> 'f list" where
  "sampled_from sample_interval i [] = []"
| "sampled_from sample_interval i (frame # rest) =
     (if i mod sample_interval = 0 then frame # sampled_from sample_interval (i + 1) rest
      else sampled_from sample_interval (i + 1) rest)"

fun spec_scan ::
  "('f, 'g) similarity_backend \<Rightarrow> rat \<Rightarrow> int \<Rightarrow> 'g \<Rightarrow> 'f list \<Rightarrow> 'f list \<Rightarrow> 'f list" where
  "spec_scan B threshold target_count reference selected [] = selected"
| "spec_scan B threshold target_count reference selected (frame # rest) =
     (if target_count \<le> int (length selected) then selected
      else if calculate_similarity B reference (cvt_gray B frame) < threshold
      then spec_scan B threshold target_count (cvt_gray B frame) (selected @ [frame]) rest
      else spec_scan B threshold target_count reference selected rest)"

definition spec_select ::
  "('f, 'g) similarity_backend \<Rightarrow> rat \<Rightarrow> int \<Rightarrow> int \<Rightarrow> 'f list \<Rightarrow> 'f list" where
  "spec_select B threshold target_count total_frame_count fs =
     (case sampled_from (max 1 (total_frame_count div (target_count * 3))) 0 fs of
        [] \<Rightarrow> []
      | first # rest \<Rightarrow> spec_scan B threshold target_count (cvt_gray B first) [first] rest)"

text \<open>
  A concrete backend for the examples. A frame is its own single-channel image, given
  as rows of intensities. \<open>resize\<close> resamples by nearest neighbour and raises on an empty
  source or target, as OpenCV does. \<open>ssim\<close> raises \<open>ValueError\<close> on images of different
  shapes and on an image with a side shorter than 7, as scikit-image does for its 7 by 7
  window; otherwise it scores identical images 1 and different ones 0.
\<close>

definition rows_cols :: "nat list list \<Rightarrow> nat \<times> nat" where
  "rows_cols img = (length img, (case img of [] \<Rightarrow> 0 | r # rs \<Rightarrow> length r))"

definition resample :: "nat list list \<Rightarrow> nat \<times> nat \<Rightarrow> py_error + nat list list" where
  "resample img d =
     (case d of (width, height) \<Rightarrow>
        if width = 0 \<or> height = 0 \<or> fst (rows_cols img) = 0 \<or> snd (rows_cols img) = 0
        then Inl CvError
        else Inr (map (\<lambda>i. map (\<lambda>j. img ! (i * fst (rows_cols img) div height)
                                        ! (j * snd (rows_cols img) div width))
                                [0..<width])
                      [0..<height]))"

definition window_backend :: "(nat list list, nat list list) similarity_backend" where
  "window_backend =
     \<lparr>cvt_gray = (\<lambda>f. f), shape = rows_cols, resize = resample,
      ssim = (\<lambda>a b. if rows_cols a = rows_cols b \<and>
                        7 \<le> fst (rows_cols a) \<and> 7 \<le> snd (rows_cols a)
                     then Inr (if a = b then 1 else 0)
                     else Inl ValueError)\<rparr>"

definition black_frame :: "nat list list" where
  "black_frame = replicate 7 (replicate 7 0)"

definition white_frame :: "nat list list" where
  "white_frame = replicate 7 (replicate 7 255)"

definition small_frame :: "nat list list" where
  "small_frame = replicate 5 (replicate 5 128)"

section \<open>Component detection (src/utils/component\_detector.py)\<close>

text \<open>
  The OpenCV and NumPy operations are again the fields of a backend record; \<open>'f\<close> is a
  frame, \<open>'c\<close> a contour, \<open>'r\<close> a cropped region.
  \<^item> \<open>find_contours\<close>: \<^verbatim>\<open>cvtColor\<close>, \<^verbatim>\<open>Canny(gray, 50, 150)\<close> and
    \<^verbatim>\<open>findContours(edges, RETR_EXTERNAL, CHAIN_APPROX_SIMPLE)\<close>, the same three calls in each
    of the three detectors;
  \<^item> \<open>boundingRect\<close> and \<open>contourArea\<close>: the bounding rectangle \<open>(x, y, w, h)\<close> of a contour
    and the area that the contour encloses;
  \<^item> \<open>crop\<close>: the slice \<^verbatim>\<open>frame[y:y+h, x:x+w]\<close>; \<open>roi_size\<close>: its \<^verbatim>\<open>.size\<close>;
    \<open>roi_variance\<close>: \<^verbatim>\<open>np.var\<close> of its single-channel conversion;
  \<^item> \<open>rectangle\<close> and \<open>putText\<close>: the image after the drawing call.
  None of the reading operations writes to the frame it is given.
\<close>

type_synonym bbox = "int \<times> int \<times> int \<times> int"

type_synonym color = "int \<times> int \<times> int"

record ('f, 'c, 'r) cv_backend =
  find_contours :: "'f \<Rightarrow> 'c list"
  boundingRect :: "'c \<Rightarrow> bbox"
  contourArea :: "'c \<Rightarrow> rat"
  crop :: "'f \<Rightarrow> bbox \<Rightarrow> 'r"
  roi_size :: "'r \<Rightarrow> nat"
  roi_variance :: "'r \<Rightarrow> rat"
  rectangle :: "'f \<Rightarrow> int \<times> int \<Rightarrow> int \<times> int \<Rightarrow> color \<Rightarrow> int \<Rightarrow> 'f"
  putText :: "'f \<Rightarrow> string \<Rightarrow> int \<times> int \<Rightarrow> color \<Rightarrow> 'f"

datatype door_status = Open | Closed

fun status_name :: "door_status \<Rightarrow> string" where
  "status_name Open = ''open''"
| "status_name Closed = ''closed''"

record door_info =
  bbox_of :: bbox
  status :: door_status
  area :: rat

text \<open>The dictionary \<^verbatim>\<open>{'open': 0, 'closed': 0, 'door_boxes': []}\<close> of \<^verbatim>\<open>detect_doors\<close>.\<close>

record doors =
  open_count :: nat
  closed_count :: nat
  door_boxes :: "door_info list"

text \<open>\<^verbatim>\<open>_classify_door_status(door_roi)\<close>\<close>

definition classify_door_status :: "('f, 'c, 'r) cv_backend \<Rightarrow> 'r \<Rightarrow> door_status" where
  "classify_door_status B door_roi =
     (if roi_size B door_roi = 0 then Closed
      else if roi_variance B door_roi > 1000 then Open else Closed)"

text \<open>
  The filter of \<^verbatim>\<open>detect_doors\<close>:
  \<^verbatim>\<open>1000 < area < 10000 and w > h * 0.3 and w < h * 3\<close> with \<^verbatim>\<open>area = cv2.contourArea(contour)\<close>.
\<close>

definition door_like :: "('f, 'c, 'r) cv_backend \<Rightarrow> 'c \<Rightarrow> bool" where
  "door_like B contour =
     (case boundingRect B contour of (x, y, w, h) \<Rightarrow>
        1000 < contourArea B contour \<and> contourArea B contour < 10000 \<and>
        (of_int w :: rat) > of_int h * (3 / 10) \<and> w < h * 3)"

text \<open>
  The dictionary \<^verbatim>\<open>door_info\<close> that \<^verbatim>\<open>detect_doors\<close> builds for an accepted contour:
  the status is that of the crop of the frame at the bounding rectangle.
\<close>

definition door_info_of :: "('f, 'c, 'r) cv_backend \<Rightarrow> 'f \<Rightarrow> 'c \<Rightarrow> door_info" where
  "door_info_of B frame contour =
     \<lparr>bbox_of = boundingRect B contour,
      status = classify_door_status B (crop B frame (boundingRect B contour)),
      area = contourArea B contour\<rparr>"

text \<open>The loop of \<^verbatim>\<open>detect_doors\<close> over the contours, updating the dictionary.\<close>

fun doors_loop :: "('f, 'c, 'r) cv_backend \<Rightarrow> 'f \<Rightarrow> 'c list \<Rightarrow> doors \<Rightarrow> doors" where
  "doors_loop B frame [] ds = ds"
| "doors_loop B frame (contour # rest) ds =
     (if door_like B contour then
        (let door_info = door_info_of B frame contour;
             ds1 = ds\<lparr>door_boxes := door_boxes ds @ [door_info]\<rparr>
         in doors_loop B frame rest
              (if status door_info = Open then ds1\<lparr>open_count := open_count ds1 + 1\<rparr>
               else ds1\<lparr>closed_count := closed_count ds1 + 1\<rparr>))
      else doors_loop B frame rest ds)"

definition detect_doors :: "('f, 'c, 'r) cv_backend \<Rightarrow> 'f \<Rightarrow> doors" where
  "detect_doors B frame =
     doors_loop B frame (find_contours B frame)
       \<lparr>open_count = 0, closed_count = 0, door_boxes = []\<rparr>"

text \<open>
  \<^verbatim>\<open>EngineDetector.detect_engines\<close> and \<^verbatim>\<open>WagonDetector.detect_wagons\<close> of this module:
  \<^verbatim>\<open>area > 15000 and w > h * 0.5\<close>, and \<^verbatim>\<open>5000 < area < 15000 and w > h * 0.3\<close>.
\<close>

definition engine_like :: "('f, 'c, 'r) cv_backend \<Rightarrow> 'c \<Rightarrow> bool" where
  "engine_like B contour =
     (case boundingRect B contour of (x, y, w, h) \<Rightarrow>
        contourArea B contour > 15000 \<and> (of_int w :: rat) > of_int h * (1 / 2))"

definition wagon_like :: "('f, 'c, 'r) cv_backend \<Rightarrow> 'c \<Rightarrow> bool" where
  "wagon_like B contour =
     (case boundingRect B contour of (x, y, w, h) \<Rightarrow>
        5000 < contourArea B contour \<and> contourArea B contour < 15000 \<and>
        (of_int w :: rat) > of_int h * (3 / 10))"

fun boxes_loop ::
  "('f, 'c, 'r) cv_backend \<Rightarrow> ('c \<Rightarrow> bool) \<Rightarrow> 'c list \<Rightarrow> bbox list \<Rightarrow> bbox list" where
  "boxes_loop B keep [] found = found"
| "boxes_loop B keep (contour # rest) found =
     (if keep contour then boxes_loop B keep rest (found @ [boundingRect B contour])
      else boxes_loop B keep rest found)"

definition detect_engines :: "('f, 'c, 'r) cv_backend \<Rightarrow> 'f \<Rightarrow> bbox list" where
  "detect_engines B frame = boxes_loop B (engine_like B) (find_contours B frame) []"

definition detect_wagons :: "('f, 'c, 'r) cv_backend \<Rightarrow> 'f \<Rightarrow> bbox list" where
  "detect_wagons B frame = boxes_loop B (wagon_like B) (find_contours B frame) []"

text \<open>
  Frames are NumPy arrays, which Python passes by reference and the drawing calls
  change in place. The arrays live in a store, a list indexed by address;
  \<^verbatim>\<open>frame.copy()\<close> allocates the next address.
\<close>

type_synonym addr = nat

type_synonym 'f store = "'f list"

text \<open>One \<^verbatim>\<open>cv2.rectangle\<close> and one \<^verbatim>\<open>cv2.putText\<close> on the array at address \<open>a\<close>.\<close>

fun draw_box ::
  "('f, 'c, 'r) cv_backend \<Rightarrow> 'f store \<Rightarrow> addr \<Rightarrow> bbox \<Rightarrow> color \<Rightarrow> string \<Rightarrow> 'f store" where
  "draw_box B st a (x, y, w, h) col label =
     st[a := putText B (rectangle B (st ! a) (x, y) (x + w, y + h) col 2)
                 label (x, y - 10) col]"

text \<open>\<^verbatim>\<open>_annotate_frame\<close>: returns the store and the address of the annotated copy.\<close>

definition annotate_frame ::
  "('f, 'c, 'r) cv_backend \<Rightarrow> 'f store \<Rightarrow> addr \<Rightarrow> doors \<Rightarrow> bbox list \<Rightarrow> bbox list \<Rightarrow>
   'f store \<times> addr" where
  "annotate_frame B st frame ds engines wagons =
     (let annotated = length st;
          st0 = st @ [st ! frame];
          st1 = foldl (\<lambda>s door.
                   draw_box B s annotated (bbox_of door)
                     (if status door = Open then (0, 255, 0) else (0, 0, 255))
                     (''Door: '' @ status_name (status door)))
                 st0 (door_boxes ds);
          st2 = foldl (\<lambda>s engine. draw_box B s annotated engine (255, 0, 0) ''Engine'')
                 st1 engines;
          st3 = foldl (\<lambda>s wagon. draw_box B s annotated wagon (0, 255, 255) ''Wagon'')
                 st2 wagons
      in (st3, annotated))"

record annotation =
  frame_index :: nat
  annotated_frame :: addr
  ann_doors :: doors
  ann_engines :: "bbox list"
  ann_wagons :: "bbox list"

record components =
  doors_open :: nat
  doors_closed :: nat
  engines :: "bbox list"
  wagons :: "bbox list"
  annotations :: "annotation list"

text \<open>
  The loop of \<^verbatim>\<open>detect_components\<close> over \<^verbatim>\<open>enumerate(frames)\<close>: the frames are
  addresses, and each iteration reads its frame from the store as the earlier
  iterations left it.
\<close>

fun components_loop ::
  "('f, 'c, 'r) cv_backend \<Rightarrow> nat \<Rightarrow> addr list \<Rightarrow> 'f store \<times> components \<Rightarrow>
   'f store \<times> components" where
  "components_loop B i [] (st, comps) = (st, comps)"
| "components_loop B i (frame # rest) (st, comps) =
     (let ds = detect_doors B (st ! frame);
          es = detect_engines B (st ! frame);
          ws = detect_wagons B (st ! frame);
          (st', annotated) = annotate_frame B st frame ds es ws
      in components_loop B (i + 1) rest
           (st', comps\<lparr>doors_open := doors_open comps + open_count ds,
                       doors_closed := doors_closed comps + closed_count ds,
                       engines := engines comps @ es,
                       wagons := wagons comps @ ws,
                       annotations := annotations comps @
                         [\<lparr>frame_index = i, annotated_frame = annotated, ann_doors = ds,
                           ann_engines = es, ann_wagons = ws\<rparr>]\<rparr>))"

definition detect_components ::
  "('f, 'c, 'r) cv_backend \<Rightarrow> 'f store \<Rightarrow> addr list \<Rightarrow> 'f store \<times> components" where
  "detect_components B st fs =
     components_loop B 0 fs
       (st, \<lparr>doors_open = 0, doors_closed = 0, engines = [], wagons = [],
             annotations = []\<rparr>)"

text \<open>
  The totals that \<^verbatim>\<open>_save_component_data\<close> (src/utils/folder\_manager.py) writes
  under \<^verbatim>\<open>total_components\<close>: doors, engines, wagons.
\<close>

definition total_components :: "components \<Rightarrow> nat \<times> nat \<times> nat" where
  "total_components comps =
     (doors_open comps + doors_closed comps, length (engines comps), length (wagons comps))"

text \<open>
  The door filter in the specification's words, with the area of the bounding box
  (width times height) in place of the area the contour encloses.
\<close>

definition spec_door_candidate :: "('f, 'c, 'r) cv_backend \<Rightarrow> 'c \<Rightarrow> bool" where
  "spec_door_candidate B contour =
     (case boundingRect B contour of (x, y, w, h) \<Rightarrow>
        1000 < w * h \<and> w * h < 10000 \<and>
        (of_int w :: rat) > (3 / 10) * of_int h \<and> w < 3 * h)"

text \<open>
  A concrete backend for the examples. A contour is given by its bounding rectangle
  and its enclosed area; a frame by the list of its contours, the variance of its crops
  and the number of drawing calls made on it, so that a frame that was drawn on differs
  from the original.
\<close>

type_synonym toy_contour = "bbox \<times> rat"

type_synonym toy_frame = "toy_contour list \<times> rat \<times> nat"

definition toy_backend :: "(toy_frame, toy_contour, nat \<times> rat) cv_backend" where
  "toy_backend =
     \<lparr>find_contours = fst, boundingRect = fst, contourArea = snd,
      crop = (\<lambda>f b. (case b of (x, y, w, h) \<Rightarrow> (nat w * nat h, fst (snd f)))),
      roi_size = fst, roi_variance = snd,
      rectangle = (\<lambda>f p q c t. (fst f, fst (snd f), snd (snd f) + 1)),
      putText = (\<lambda>f s p c. (fst f, fst (snd f), snd (snd f) + 1))\<rparr>"

text \<open>
  Two frames for the examples. \<open>door_frame\<close> has one contour of enclosed area 6000 with
  a bounding rectangle 60 wide and 120 high, and crops of variance 1500.
  \<open>triangle_frame\<close> has one contour, a right triangle with legs of 39 pixels: its
  bounding rectangle is 40 by 40 and the area it encloses is 760.5.
\<close>

definition door_frame :: toy_frame where
  "door_frame = ([((10, 20, 60, 120), 6000)], 1500, 0)"

definition triangle_frame :: toy_frame where
  "triangle_frame = ([((0, 0, 40, 40), 1521 / 2)], 1500, 0)"

subsection \<open>Facts about the segment count\<close>

lemma num_coaches_bounds: "6 \<le> num_coaches d \<and> num_coaches d \<le> 12"
  by (simp add: num_coaches_def)

lemma py_int_quotient:
  assumes "0 \<le> t" and "0 < f"
  shows "py_int ((of_int t :: rat) / of_int f / 15) = t div (15 * f)"
proof -
  have nonneg: "0 \<le> (of_int t :: rat) / of_int f / 15"
    using assms by simp
  have "(of_int t :: rat) / of_int f / 15 = of_int t / of_int (15 * f)"
    by simp
  then have "\<lfloor>(of_int t :: rat) / of_int f / 15\<rfloor> = t div (15 * f)"
    by (simp only: floor_divide_of_int_eq)
  with nonneg show ?thesis
    by (simp add: py_int_def)
qed

lemma floor_rat_numeral:
  "\<lfloor>(numeral a :: rat) / numeral b\<rfloor> = numeral a div numeral b"
  by (metis floor_divide_of_int_eq of_int_numeral)

lemma num_coaches_nonzero: "num_coaches d \<noteq> 0"
  using num_coaches_bounds [of d] by linarith

lemma boundaries_value:
  assumes "fps \<noteq> 0"
  shows "detect_coach_boundaries tf fps =
           Inr (map (\<lambda>i. (i * (tf div num_coaches (of_int tf / of_int fps)),
                           min ((i + 1) * (tf div num_coaches (of_int tf / of_int fps))) tf,
                           if i = 0 then Engine else Wagon))
                    [0..num_coaches (of_int tf / of_int fps) - 1])"
  using assms by (simp add: detect_coach_boundaries_def Let_def num_coaches_nonzero)

lemma seg_nth:
  assumes "0 < n" and "i < nat n"
  shows "map g [0..n - 1] ! i = g (int i)"
  using assms by simp

lemma seg_end_simplify:
  assumes "0 \<le> (tf::int)" and "0 < n" and "0 \<le> i" and "i < n"
  shows "min ((i + 1) * (tf div n)) tf = (i + 1) * (tf div n)"
proof -
  have L: "0 \<le> tf div n"
    using assms(1,2) by (simp add: div_int_pos_iff)
  have "(i + 1) * (tf div n) \<le> n * (tf div n)"
    using assms L by (intro mult_right_mono) auto
  also have "\<dots> = tf - tf mod n"
    by (simp add: minus_mod_eq_mult_div)
  also have "\<dots> \<le> tf"
    using assms by simp
  finally show ?thesis by simp
qed

lemma segs_nth:
  assumes "0 \<le> (tf::int)" and "0 < n" and "k < nat n"
  shows "map (\<lambda>i. (i * (tf div n), min ((i + 1) * (tf div n)) tf,
                    if i = 0 then Engine else Wagon)) [0..n - 1] ! k =
         (int k * (tf div n), (int k + 1) * (tf div n), if k = 0 then Engine else Wagon)"
proof -
  have "min ((int k + 1) * (tf div n)) tf = (int k + 1) * (tf div n)"
    using assms by (intro seg_end_simplify) auto
  then show ?thesis
    using assms by (simp add: seg_nth)
qed

lemma segs_properties:
  assumes "0 \<le> (tf::int)" and "0 < n"
    and "segs = map (\<lambda>i. (i * (tf div n), min ((i + 1) * (tf div n)) tf,
                    if i = 0 then Engine else Wagon)) [0..n - 1]"
  shows "length segs = nat n" and "segs \<noteq> []" and "contiguous segs"
    and "start_frame (hd segs) = 0" and "end_frame (last segs) = tf - tf mod n"
    and "engine_first segs"
proof -
  show len: "length segs = nat n"
    using assms by simp
  then show ne: "segs \<noteq> []"
    using assms(2) by auto
  have nth: "\<And>k. k < nat n \<Longrightarrow> segs ! k =
      (int k * (tf div n), (int k + 1) * (tf div n), if k = 0 then Engine else Wagon)"
    unfolding assms(3) using assms(1,2) by (rule segs_nth)
  show "contiguous segs"
    unfolding contiguous_def
  proof (intro allI impI)
    fix i assume "i < length segs - 1"
    then have "i < nat n" and "Suc i < nat n" using len by auto
    then show "end_frame (segs ! i) = start_frame (segs ! Suc i)"
      by (simp add: nth end_frame_def start_frame_def)
  qed
  have "hd segs = segs ! 0" using ne by (simp add: hd_conv_nth)
  then show "start_frame (hd segs) = 0"
    using nth [of 0] assms(2) by (simp add: start_frame_def)
  have "last segs = segs ! (nat n - 1)" using ne len by (simp add: last_conv_nth)
  moreover have "nat n - 1 < nat n" using assms(2) by simp
  ultimately have "end_frame (last segs) = (int (nat n - 1) + 1) * (tf div n)"
    by (simp add: nth end_frame_def)
  also have "int (nat n - 1) + 1 = n" using assms(2) by simp
  also have "n * (tf div n) = tf - tf mod n" by (simp add: minus_mod_eq_mult_div)
  finally show "end_frame (last segs) = tf - tf mod n" .
  show "engine_first segs"
    unfolding engine_first_def using len by (simp add: nth coach_type_of_def)
qed

subsection \<open>Facts about the keyframe loop\<close>

lemma select_loop_frames_nonempty:
  "frames st \<noteq> [] \<Longrightarrow> frames (select_loop B th t k fs st) \<noteq> []"
  by (induction fs arbitrary: st) (auto split: option.splits)

lemma select_loop_length_bound:
  "int (length (frames st)) < t \<Longrightarrow> reference_frame st \<noteq> None \<Longrightarrow>
   int (length (frames (select_loop B th t k fs st))) \<le> t"
  by (induction fs arbitrary: st) (auto split: option.splits)

lemma spec_scan_full:
  "t \<le> int (length sel) \<Longrightarrow> spec_scan B th t r sel xs = sel"
  by (cases xs) auto

lemma loop_refines_scan:
  "int (length acc) < t \<Longrightarrow>
   frames (select_loop B th t k fs \<lparr>frames = acc, frame_count = i, reference_frame = Some r\<rparr>)
     = spec_scan B th t r acc (sampled_from k i fs)"
proof (induction fs arbitrary: acc i r)
  case Nil
  then show ?case by simp
next
  case (Cons frame rest)
  show ?case
  proof (cases "i mod k = 0")
    case False
    then show ?thesis using Cons by simp
  next
    case True
    show ?thesis
    proof (cases "calculate_similarity B r (cvt_gray B frame) < th")
      case False
      then show ?thesis using True Cons by simp
    next
      case sel: True
      show ?thesis
      proof (cases "t \<le> int (length (acc @ [frame]))")
        case True
        then show ?thesis using \<open>i mod k = 0\<close> sel Cons.prems
          by (simp add: spec_scan_full)
      next
        case False
        then have "int (length (acc @ [frame])) < t" by simp
        from Cons.IH [OF this] show ?thesis
          using \<open>i mod k = 0\<close> sel Cons.prems False by simp
      qed
    qed
  qed
qed

lemma extract_refines_spec:
  assumes "cap_opened v" and "2 \<le> t"
  shows "extract_key_frames B v th t = Inr (spec_select B th t (cap_frame_count v) (cap_frames v))"
proof (cases "cap_frames v")
  case Nil
  then show ?thesis using assms
    by (simp add: extract_key_frames_def spec_select_def initial_state_def)
next
  case (Cons f rest)
  define k where "k = max 1 (cap_frame_count v div (t * 3))"
  have step: "select_loop B th t k (f # rest) initial_state =
     select_loop B th t k rest \<lparr>frames = [f], frame_count = 1, reference_frame = Some (cvt_gray B f)\<rparr>"
    by (simp add: initial_state_def)
  have fr0: "frames (select_loop B th t k rest
        \<lparr>frames = [f], frame_count = 1, reference_frame = Some (cvt_gray B f)\<rparr>) =
     spec_scan B th t (cvt_gray B f) [f] (sampled_from k 1 rest)"
    by (rule loop_refines_scan) (use assms(2) in simp)
  have fr: "frames (select_loop B th t k (f # rest) initial_state) =
     spec_scan B th t (cvt_gray B f) [f] (sampled_from k 1 rest)"
    unfolding step by (rule fr0)
  have ne: "frames (select_loop B th t k (f # rest) initial_state) \<noteq> []"
    unfolding step by (rule select_loop_frames_nonempty) simp
  have t3: "t * 3 \<noteq> 0" using assms(2) by simp
  show ?thesis
    using assms(1) t3 Cons fr ne
    by (simp add: extract_key_frames_def Let_def spec_select_def k_def [symmetric]
        del: select_loop.simps)
qed

lemma extract_nonempty:
  assumes "cap_opened v" and "t \<noteq> 0" and "cap_frames v \<noteq> []"
  shows "\<exists>fs. extract_key_frames B v th t = Inr fs \<and> fs \<noteq> []"
  using assms
  by (cases "cap_frames v")
     (auto simp: extract_key_frames_def Let_def simp del: select_loop.simps)

lemma extract_bounded:
  assumes "cap_opened v" and "2 \<le> t"
  shows "\<exists>fs. extract_key_frames B v th t = Inr fs \<and> int (length fs) \<le> t"
proof (cases "cap_frames v")
  case Nil
  then show ?thesis using assms
    by (simp add: extract_key_frames_def initial_state_def)
next
  case (Cons f rest)
  define k where "k = max 1 (cap_frame_count v div (t * 3))"
  have step: "select_loop B th t k (f # rest) initial_state =
     select_loop B th t k rest
       \<lparr>frames = [f], frame_count = 1, reference_frame = Some (cvt_gray B f)\<rparr>"
    by (simp add: initial_state_def)
  have bound: "int (length (frames (select_loop B th t k (f # rest) initial_state))) \<le> t"
    unfolding step by (rule select_loop_length_bound) (use assms(2) in simp_all)
  have ne: "frames (select_loop B th t k (f # rest) initial_state) \<noteq> []"
    unfolding step by (rule select_loop_frames_nonempty) simp
  have t3: "t * 3 \<noteq> 0" using assms(2) by simp
  show ?thesis
    using assms(1) t3 Cons bound ne
    by (simp add: extract_key_frames_def Let_def k_def [symmetric] del: select_loop.simps)
qed

subsection \<open>Facts about the detectors and the store\<close>

lemma doors_loop_boxes:
  "door_boxes (doors_loop B f cs ds) =
     door_boxes ds @ map (door_info_of B f) (filter (door_like B) cs)"
  by (induction cs arbitrary: ds) (simp_all add: Let_def)

lemma doors_loop_open:
  "open_count (doors_loop B f cs ds) =
     open_count ds + length (filter (\<lambda>d. status d = Open) (map (door_info_of B f) (filter (door_like B) cs)))"
  by (induction cs arbitrary: ds) (simp_all add: Let_def)

lemma doors_loop_closed:
  "closed_count (doors_loop B f cs ds) =
     closed_count ds + length (filter (\<lambda>d. status d = Closed) (map (door_info_of B f) (filter (door_like B) cs)))"
  by (induction cs arbitrary: ds) (auto simp add: Let_def intro: door_status.exhaust)

lemma status_partition:
  "length (filter (\<lambda>d. status d = Open) ds) + length (filter (\<lambda>d. status d = Closed) ds) = length ds"
  by (induction ds) (auto intro: door_status.exhaust)

lemma boxes_loop_eq:
  "boxes_loop B keep cs found = found @ map (boundingRect B) (filter keep cs)"
  by (induction cs arbitrary: found) simp_all

lemma draw_box_length: "length (draw_box B st a b col l) = length st"
  by (cases b) simp

lemma draw_box_take: "n \<le> a \<Longrightarrow> take n (draw_box B st a b col l) = take n st"
  by (cases b) simp

lemma foldl_draw_length:
  "length (foldl (\<lambda>s x. draw_box B s a (g x) (c x) (l x)) st xs) = length st"
  by (induction xs arbitrary: st) (simp_all add: draw_box_length)

lemma foldl_draw_take:
  "n \<le> a \<Longrightarrow> take n (foldl (\<lambda>s x. draw_box B s a (g x) (c x) (l x)) st xs) = take n st"
  by (induction xs arbitrary: st) (simp_all add: draw_box_take)

lemma annotate_frame_store:
  assumes "annotate_frame B st a ds es ws = (st', n)"
  shows "n = length st" and "length st' = Suc (length st)" and "take (length st) st' = st"
proof -
  show "n = length st" using assms by (auto simp: annotate_frame_def Let_def)
  have st': "st' = foldl (\<lambda>s w. draw_box B s (length st) w (0, 255, 255) ''Wagon'')
           (foldl (\<lambda>s e. draw_box B s (length st) e (255, 0, 0) ''Engine'')
              (foldl (\<lambda>s door. draw_box B s (length st) (bbox_of door)
                     (if status door = Open then (0, 255, 0) else (0, 0, 255))
                     (''Door: '' @ status_name (status door)))
                 (st @ [st ! a]) (door_boxes ds)) es) ws"
    using assms by (auto simp: annotate_frame_def Let_def)
  show "length st' = Suc (length st)"
    unfolding st' by (simp add: foldl_draw_length)
  show "take (length st) st' = st"
    unfolding st' by (simp add: foldl_draw_take)
qed


lemma prefix_nth:
  assumes "take (length st) st' = st" and "a < length st"
  shows "st' ! a = st ! a"
proof -
  have "st' ! a = take (length st) st' ! a" using assms(2) by simp
  then show ?thesis using assms(1) by simp
qed

lemma components_loop_store:
  "components_loop B i fs (st, comps) = (st', comps') \<Longrightarrow>
   length st' = length st + length fs \<and> take (length st) st' = st"
proof (induction fs arbitrary: i st comps)
  case Nil
  then show ?case by simp
next
  case (Cons a rest)
  obtain st1 n where ann: "annotate_frame B st a (detect_doors B (st ! a))
      (detect_engines B (st ! a)) (detect_wagons B (st ! a)) = (st1, n)"
    by (cases "annotate_frame B st a (detect_doors B (st ! a))
      (detect_engines B (st ! a)) (detect_wagons B (st ! a))")
  note A = annotate_frame_store [OF ann]
  from Cons.prems obtain comps1 where
    rec: "components_loop B (i + 1) rest (st1, comps1) = (st', comps')"
    by (simp add: Let_def ann)
  from Cons.IH [OF rec] have len: "length st' = length st1 + length rest"
    and tk: "take (length st1) st' = st1" by simp_all
  have "take (length st) st' = take (length st) (take (length st1) st')"
    using A(2) by (simp add: min_def)
  also have "\<dots> = st" using tk A(3) by simp
  finally show ?case using len A(2) by simp
qed

lemma components_loop_results:
  "\<forall>a \<in> set fs. a < length st \<Longrightarrow>
   doors_open (snd (components_loop B i fs (st, comps))) =
     doors_open comps + sum_list (map (\<lambda>a. open_count (detect_doors B (st ! a))) fs) \<and>
   doors_closed (snd (components_loop B i fs (st, comps))) =
     doors_closed comps + sum_list (map (\<lambda>a. closed_count (detect_doors B (st ! a))) fs) \<and>
   engines (snd (components_loop B i fs (st, comps))) =
     engines comps @ concat (map (\<lambda>a. detect_engines B (st ! a)) fs) \<and>
   wagons (snd (components_loop B i fs (st, comps))) =
     wagons comps @ concat (map (\<lambda>a. detect_wagons B (st ! a)) fs) \<and>
   map ann_doors (annotations (snd (components_loop B i fs (st, comps)))) =
     map ann_doors (annotations comps) @ map (\<lambda>a. detect_doors B (st ! a)) fs"
proof (induction fs arbitrary: i st comps)
  case Nil
  show ?case by simp
next
  case (Cons a rest)
  obtain st1 n where ann: "annotate_frame B st a (detect_doors B (st ! a))
      (detect_engines B (st ! a)) (detect_wagons B (st ! a)) = (st1, n)"
    by (cases "annotate_frame B st a (detect_doors B (st ! a))
      (detect_engines B (st ! a)) (detect_wagons B (st ! a))")
  note A = annotate_frame_store [OF ann]
  have valid: "\<And>b. b \<in> set rest \<Longrightarrow> b < length st"
    using Cons.prems by simp
  have valid1: "\<forall>b \<in> set rest. b < length st1"
    using valid A(2) by (simp add: less_Suc_eq)
  have same: "\<And>b. b \<in> set rest \<Longrightarrow> st1 ! b = st ! b"
    using prefix_nth [OF A(3)] valid by simp
  have ms: "\<And>g. map (\<lambda>b. g (st1 ! b)) rest = map (\<lambda>b. g (st ! b)) rest"
    using same by simp
  note ms' = ms [of "\<lambda>x. open_count (detect_doors B x)"]
    ms [of "\<lambda>x. closed_count (detect_doors B x)"]
    ms [of "detect_engines B"] ms [of "detect_wagons B"] ms [of "detect_doors B"]
  show ?case
    using Cons.IH [OF valid1] by (simp add: Let_def ann ms')
qed

lemma detect_doors_counts:
  "open_count (detect_doors B f) + closed_count (detect_doors B f) =
     length (door_boxes (detect_doors B f))"
  by (simp add: detect_doors_def doors_loop_open doors_loop_closed doors_loop_boxes
      status_partition [where ds = "map (door_info_of B f) (filter (door_like B) (find_contours B f))", simplified])

lemma components_loop_annotated:
  "map annotated_frame (annotations (snd (components_loop B i fs (st, comps)))) =
     map annotated_frame (annotations comps) @ [length st ..< length st + length fs]"
proof (induction fs arbitrary: i st comps)
  case Nil
  show ?case by simp
next
  case (Cons a rest)
  obtain st1 n where ann: "annotate_frame B st a (detect_doors B (st ! a))
      (detect_engines B (st ! a)) (detect_wagons B (st ! a)) = (st1, n)"
    by (cases "annotate_frame B st a (detect_doors B (st ! a))
      (detect_engines B (st ! a)) (detect_wagons B (st ! a))")
  note A = annotate_frame_store [OF ann]
  have "[length st ..< length st + length (a # rest)] =
          length st # [Suc (length st) ..< Suc (length st) + length rest]"
    using upt_conv_Cons [of "length st" "length st + Suc (length rest)"] by simp
  then show ?case
    using Cons.IH [of "i + 1" st1] by (simp add: Let_def ann A(1,2))
qed

subsection \<open>Claims about the segmenter\<close>

text \<open>
  C1 (as the specification states it, refuted). With 301 frames at 30 frames per second
  the code produces six segments of 50 frames; the last one ends at frame 300, so the
  frame 300 belongs to no segment and the list is not an exact partition of the range
  from 0 to 301.
\<close>

theorem C1_partition_counterexample:
  "detect_coach_boundaries 301 30 =
     Inr [(0, 50, Engine), (50, 100, Wagon), (100, 150, Wagon), (150, 200, Wagon),
          (200, 250, Wagon), (250, 300, Wagon)] \<and>
   \<not> exact_partition 301
     [(0, 50, Engine), (50, 100, Wagon), (100, 150, Wagon), (150, 200, Wagon),
      (200, 250, Wagon), (250, 300, Wagon)]"
  by (simp add: detect_coach_boundaries_def num_coaches_def py_int_def upto.simps
      floor_rat_numeral exact_partition_def end_frame_def)

text \<open>
  C1 (amended). For a positive frame count and a positive frame rate the segmenter
  returns a non-empty list of \<open>num_coaches\<close> segments of equal length, the integer quotient
  of the frame count by the number of segments: segment \<open>i\<close> starts at \<open>i\<close> times that
  length and ends at \<open>i + 1\<close> times that length. Adjacent segments share their boundary,
  the first segment starts at 0, and exactly the first segment is tagged engine and all
  others wagon. The last segment ends at the frame count minus its remainder modulo the
  number of segments, so it ends at the frame count exactly when the number of segments
  divides the frame count.
\<close>

theorem C1_segments_contiguous_equal_length:
  assumes "0 < tf" and "0 < fps"
  shows "\<exists>segs. detect_coach_boundaries tf fps = Inr segs \<and> segs \<noteq> [] \<and>
           int (length segs) = num_coaches (of_int tf / of_int fps) \<and>
           (\<forall>i < length segs.
              start_frame (segs ! i) = int i * (tf div int (length segs)) \<and>
              end_frame (segs ! i) = (int i + 1) * (tf div int (length segs)) \<and>
              end_frame (segs ! i) - start_frame (segs ! i) = tf div int (length segs)) \<and>
           contiguous segs \<and> start_frame (hd segs) = 0 \<and>
           end_frame (last segs) = tf - tf mod int (length segs) \<and>
           (end_frame (last segs) = tf \<longleftrightarrow> int (length segs) dvd tf) \<and>
           engine_first segs"
proof -
  define n where "n = num_coaches (of_int tf / of_int fps)"
  define segs where "segs = map (\<lambda>i. (i * (tf div n), min ((i + 1) * (tf div n)) tf,
                    if i = 0 then Engine else Wagon)) [0..n - 1]"
  have npos: "0 < n"
    using num_coaches_bounds [of "of_int tf / of_int fps"] by (simp add: n_def)
  have tf0: "0 \<le> tf"
    using assms by simp
  note P = segs_properties [OF tf0 npos segs_def]
  have val: "detect_coach_boundaries tf fps = Inr segs"
    using assms(2) by (simp add: boundaries_value segs_def n_def)
  have len: "int (length segs) = n"
    using P(1) npos by simp
  have nth: "segs ! i =
      (int i * (tf div n), (int i + 1) * (tf div n), if i = 0 then Engine else Wagon)"
    if "i < length segs" for i
    unfolding segs_def using tf0 npos by (rule segs_nth) (use that P(1) in simp)
  have each: "\<forall>i < length segs.
      start_frame (segs ! i) = int i * (tf div int (length segs)) \<and>
      end_frame (segs ! i) = (int i + 1) * (tf div int (length segs)) \<and>
      end_frame (segs ! i) - start_frame (segs ! i) = tf div int (length segs)"
    unfolding len by (simp add: nth start_frame_def end_frame_def algebra_simps)
  have dv: "(tf - tf mod n = tf) \<longleftrightarrow> n dvd tf"
    by (simp add: dvd_eq_mod_eq_0)
  show ?thesis
  proof (intro exI conjI)
    show "detect_coach_boundaries tf fps = Inr segs"
      by (rule val)
    show "segs \<noteq> []"
      by (rule P(2))
    show "int (length segs) = num_coaches (of_int tf / of_int fps)"
      using len by (simp add: n_def)
    show "\<forall>i < length segs.
      start_frame (segs ! i) = int i * (tf div int (length segs)) \<and>
      end_frame (segs ! i) = (int i + 1) * (tf div int (length segs)) \<and>
      end_frame (segs ! i) - start_frame (segs ! i) = tf div int (length segs)"
      by (rule each)
    show "contiguous segs"
      by (rule P(3))
    show "start_frame (hd segs) = 0"
      by (rule P(4))
    show "end_frame (last segs) = tf - tf mod int (length segs)"
      unfolding len by (rule P(5))
    show "(end_frame (last segs) = tf) = (int (length segs) dvd tf)"
      unfolding len P(5) by (rule dv)
    show "engine_first segs"
      by (rule P(6))
  qed
qed

theorem C1_segments_witness:
  "(0::int) < 301 \<and> (0::int) < 30 \<and>
   (\<exists>segs. detect_coach_boundaries 301 30 = Inr segs \<and> segs \<noteq> [] \<and>
           int (length segs) = num_coaches (of_int 301 / of_int 30) \<and>
           (\<forall>i < length segs.
              start_frame (segs ! i) = int i * (301 div int (length segs)) \<and>
              end_frame (segs ! i) = (int i + 1) * (301 div int (length segs)) \<and>
              end_frame (segs ! i) - start_frame (segs ! i) = 301 div int (length segs)) \<and>
           contiguous segs \<and> start_frame (hd segs) = 0 \<and>
           end_frame (last segs) = 301 - 301 mod int (length segs) \<and>
           (end_frame (last segs) = 301 \<longleftrightarrow> int (length segs) dvd 301) \<and>
           engine_first segs)"
proof -
  have h1: "(0::int) < 301" and h2: "(0::int) < 30"
    by simp_all
  from C1_segments_contiguous_equal_length [OF h1 h2] h1 h2 show ?thesis
    by blast
qed

text \<open>
  C2 (as the specification states it, refuted). With 100 frames at 1 frame per second
  the duration divided by 15 is 6.67: rounding gives 7 segments, the code truncates
  with \<open>int()\<close> and returns 6.
\<close>

theorem C2_round_counterexample:
  "detect_coach_boundaries 100 1 =
     Inr [(0, 16, Engine), (16, 32, Wagon), (32, 48, Wagon), (48, 64, Wagon),
          (64, 80, Wagon), (80, 96, Wagon)] \<and>
   spec_num_coaches 100 1 = 7"
  by (simp add: detect_coach_boundaries_def num_coaches_def py_int_def
      spec_num_coaches_def clamp_def upto.simps round_def floor_rat_numeral)

text \<open>
  C2 (amended). For a positive frame count and a positive frame rate the number of
  segments is the duration in seconds divided by 15, rounded down to an integer, then
  clamped to the interval from 6 to 12; that is the integer quotient of the frame count
  by 15 times the frame rate, clamped.
\<close>

theorem C2_segment_count_floor:
  assumes "0 < tf" and "0 < fps"
  shows "\<exists>segs. detect_coach_boundaries tf fps = Inr segs \<and>
           int (length segs) = clamp \<lfloor>(of_int tf :: rat) / of_int fps / 15\<rfloor> 6 12 \<and>
           int (length segs) = clamp (tf div (15 * fps)) 6 12"
proof -
  define n where "n = num_coaches (of_int tf / of_int fps)"
  have npos: "0 < n"
    using num_coaches_bounds [of "of_int tf / of_int fps"] by (simp add: n_def)
  have q: "py_int ((of_int tf :: rat) / of_int fps / 15) = tf div (15 * fps)"
    using assms by (intro py_int_quotient) auto
  have "(of_int tf :: rat) / of_int fps / 15 = of_int tf / of_int (15 * fps)"
    by simp
  then have fl: "\<lfloor>(of_int tf :: rat) / of_int fps / 15\<rfloor> = tf div (15 * fps)"
    by (simp only: floor_divide_of_int_eq)
  have n_eq: "n = clamp (tf div (15 * fps)) 6 12"
    unfolding n_def num_coaches_def clamp_def q ..
  have "detect_coach_boundaries tf fps =
          Inr (map (\<lambda>i. (i * (tf div n), min ((i + 1) * (tf div n)) tf,
                    if i = 0 then Engine else Wagon)) [0..n - 1])"
    using assms(2) by (simp add: boundaries_value n_def)
  moreover have "int (length (map (\<lambda>i. (i * (tf div n), min ((i + 1) * (tf div n)) tf,
                    if i = 0 then Engine else Wagon)) [0..n - 1])) = n"
    using npos by simp
  ultimately show ?thesis
    using n_eq fl by auto
qed

theorem C2_segment_count_witness:
  "(0::int) < 100 \<and> (0::int) < 1 \<and>
   (\<exists>segs. detect_coach_boundaries 100 1 = Inr segs \<and>
           int (length segs) = clamp \<lfloor>(of_int 100 :: rat) / of_int 1 / 15\<rfloor> 6 12 \<and>
           int (length segs) = clamp (100 div (15 * 1)) 6 12)"
  using C2_segment_count_floor [of 100 1] by simp

text \<open>
  C9. For a positive frame count and a positive frame rate the boundary computation
  raises nothing: neither division has a zero divisor, and a segment list is returned.
\<close>

theorem C9_segmenter_no_error:
  assumes "0 < tf" and "0 < fps"
  shows "(\<exists>segs. detect_coach_boundaries tf fps = Inr segs) \<and>
         (\<forall>e. detect_coach_boundaries tf fps \<noteq> Inl e)"
  using assms by (simp add: detect_coach_boundaries_def Let_def num_coaches_nonzero)

theorem C9_segmenter_no_error_witness:
  "(0::int) < 300 \<and> (0::int) < 30 \<and>
   (\<exists>segs. detect_coach_boundaries 300 30 = Inr segs) \<and>
   (\<forall>e. detect_coach_boundaries 300 30 \<noteq> Inl e)"
  using C9_segmenter_no_error [of 300 30] by simp

subsection \<open>Claims about the keyframe selector\<close>

text \<open>
  C4. The claim bounds the length of the result by \<open>target_count\<close>. The code tests
  \<^verbatim>\<open>len(frames) >= target_frames\<close> only after it has appended a frame selected by
  similarity, never after the first frame. With a target of 1 and a clip of two
  dissimilar frames it returns both frames: two keyframes for a target of one.
  (For a target of at least 2 the bound holds, \<open>extract_bounded\<close>, and the result is
  non-empty whenever a frame can be read, \<open>extract_nonempty\<close>.)
\<close>

theorem C4_target_one_returns_two:
  "extract_key_frames window_backend
     \<lparr>cap_opened = True, cap_frame_count = 2, cap_frames = [black_frame, white_frame]\<rparr>
     (9 / 10) 1 = Inr [black_frame, white_frame]"
  by (simp add: extract_key_frames_def initial_state_def calculate_similarity_def
      similarity_body_def window_backend_def rows_cols_def black_frame_def white_frame_def
      eval_nat_numeral)

text \<open>
  C5. The claim says that selection stops once \<open>target_count\<close> keyframes are collected.
  With a target of 1 and the frames black, white, black the selection in the claim's
  words (\<open>spec_select\<close>) stops after the first frame, and the code goes on to select the
  white frame. This is the defect shown for C4. (For a target of at least 2 the code
  computes exactly \<open>spec_select\<close>, \<open>extract_refines_spec\<close>.)
\<close>

theorem C5_target_one_selects_second:
  "extract_key_frames window_backend
     \<lparr>cap_opened = True, cap_frame_count = 3,
      cap_frames = [black_frame, white_frame, black_frame]\<rparr>
     (9 / 10) 1 = Inr [black_frame, white_frame] \<and>
   spec_select window_backend (9 / 10) 1 3 [black_frame, white_frame, black_frame] =
     [black_frame]"
  by (simp add: extract_key_frames_def initial_state_def calculate_similarity_def
      similarity_body_def window_backend_def rows_cols_def black_frame_def white_frame_def
      spec_select_def eval_nat_numeral)




text \<open>
  C8. The similarity function returns a number for every pair of images and every
  backend, and the number is determined as follows. When the shapes differ, the second
  image is resized to the columns and rows of the first and the resized image is
  compared; when they agree, the second image is compared as it is. The result is the
  structural-similarity score of that comparison, raised to 0 when it is negative; it is
  0 when the resize or the comparison raises. So the result is at least 0, it is whatever
  the \<^verbatim>\<open>try\<close> block returns when that returns, and it is at most 1 provided the
  structural-similarity scores are.
\<close>

theorem C8_similarity_total_bounded:
  "0 \<le> calculate_similarity B a b \<and>
   ((\<forall>x y s. ssim B x y = Inr s \<longrightarrow> s \<le> 1) \<longrightarrow> calculate_similarity B a b \<le> 1) \<and>
   (shape B a \<noteq> shape B b \<longrightarrow>
      calculate_similarity B a b =
        (case resize B b (snd (shape B a), fst (shape B a)) of
           Inl e \<Rightarrow> 0
         | Inr b' \<Rightarrow> (case ssim B a b' of Inl e \<Rightarrow> 0 | Inr s \<Rightarrow> max 0 s))) \<and>
   (shape B a = shape B b \<longrightarrow>
      calculate_similarity B a b =
        (case ssim B a b of Inl e \<Rightarrow> 0 | Inr s \<Rightarrow> max 0 s)) \<and>
   (shape B a \<noteq> shape B b \<longrightarrow>
      similarity_body B a b =
        (case resize B b (snd (shape B a), fst (shape B a)) of
           Inl e \<Rightarrow> Inl e
         | Inr b' \<Rightarrow> (case ssim B a b' of Inl e \<Rightarrow> Inl e | Inr s \<Rightarrow> Inr (max 0 s)))) \<and>
   (shape B a = shape B b \<longrightarrow>
      similarity_body B a b =
        (case ssim B a b of Inl e \<Rightarrow> Inl e | Inr s \<Rightarrow> Inr (max 0 s))) \<and>
   (\<forall>s. similarity_body B a b = Inr s \<longrightarrow> calculate_similarity B a b = s) \<and>
   (\<forall>e. similarity_body B a b = Inl e \<longrightarrow> calculate_similarity B a b = 0)"
proof (intro conjI impI allI)
  show "0 \<le> calculate_similarity B a b"
    by (auto simp: calculate_similarity_def similarity_body_def split: sum.splits)
  show "calculate_similarity B a b \<le> 1" if "\<forall>x y s. ssim B x y = Inr s \<longrightarrow> s \<le> 1"
    using that
    by (auto simp: calculate_similarity_def similarity_body_def split: sum.splits if_splits)
  show "calculate_similarity B a b =
        (case resize B b (snd (shape B a), fst (shape B a)) of
           Inl e \<Rightarrow> 0
         | Inr b' \<Rightarrow> (case ssim B a b' of Inl e \<Rightarrow> 0 | Inr s \<Rightarrow> max 0 s))"
    if "shape B a \<noteq> shape B b"
    using that
    by (simp add: calculate_similarity_def similarity_body_def split: sum.splits)
  show "calculate_similarity B a b =
        (case ssim B a b of Inl e \<Rightarrow> 0 | Inr s \<Rightarrow> max 0 s)"
    if "shape B a = shape B b"
    using that
    by (simp add: calculate_similarity_def similarity_body_def split: sum.splits)
  show "similarity_body B a b =
        (case resize B b (snd (shape B a), fst (shape B a)) of
           Inl e \<Rightarrow> Inl e
         | Inr b' \<Rightarrow> (case ssim B a b' of Inl e \<Rightarrow> Inl e | Inr s \<Rightarrow> Inr (max 0 s)))"
    if "shape B a \<noteq> shape B b"
    using that by (simp add: similarity_body_def)
  show "similarity_body B a b =
        (case ssim B a b of Inl e \<Rightarrow> Inl e | Inr s \<Rightarrow> Inr (max 0 s))"
    if "shape B a = shape B b"
    using that by (simp add: similarity_body_def)
  show "calculate_similarity B a b = s" if "similarity_body B a b = Inr s" for s
    using that by (simp add: calculate_similarity_def)
  show "calculate_similarity B a b = 0" if "similarity_body B a b = Inl e" for e
    using that by (simp add: calculate_similarity_def)
qed

theorem C8_similarity_witness:
  "shape window_backend black_frame \<noteq> shape window_backend small_frame \<and>
   shape window_backend black_frame = shape window_backend white_frame \<and>
   shape window_backend black_frame = shape window_backend black_frame \<and>
   similarity_body window_backend small_frame small_frame = Inl ValueError \<and>
   similarity_body window_backend black_frame black_frame = Inr 1 \<and>
   resize window_backend small_frame (7, 7) = Inr (replicate 7 (replicate 7 128)) \<and>
   0 \<le> calculate_similarity window_backend black_frame small_frame \<and>
   calculate_similarity window_backend black_frame small_frame \<le> 1 \<and>
   calculate_similarity window_backend black_frame small_frame =
     (case resize window_backend small_frame
             (snd (shape window_backend black_frame), fst (shape window_backend black_frame)) of
        Inl e \<Rightarrow> 0
      | Inr b' \<Rightarrow> (case ssim window_backend black_frame b' of
                     Inl e \<Rightarrow> 0 | Inr s \<Rightarrow> max 0 s)) \<and>
   calculate_similarity window_backend black_frame white_frame =
     (case ssim window_backend black_frame white_frame of
        Inl e \<Rightarrow> 0 | Inr s \<Rightarrow> max 0 s) \<and>
   calculate_similarity window_backend black_frame black_frame = 1 \<and>
   calculate_similarity window_backend small_frame small_frame = 0"
proof -
  have h1: "\<forall>x y s. ssim window_backend x y = Inr s \<longrightarrow> s \<le> 1"
    by (auto simp: window_backend_def split: if_splits)
  have h2: "shape window_backend black_frame \<noteq> shape window_backend small_frame"
    by (simp add: window_backend_def rows_cols_def black_frame_def small_frame_def)
  have h3: "shape window_backend black_frame = shape window_backend white_frame"
    by (simp add: window_backend_def rows_cols_def black_frame_def white_frame_def
        eval_nat_numeral)
  have h4: "similarity_body window_backend small_frame small_frame = Inl ValueError"
    by (simp add: similarity_body_def window_backend_def rows_cols_def small_frame_def)
  have h5: "similarity_body window_backend black_frame black_frame = Inr 1"
    by (simp add: similarity_body_def window_backend_def rows_cols_def black_frame_def
        eval_nat_numeral)
  have h6: "resize window_backend small_frame (7, 7) = Inr (replicate 7 (replicate 7 128))"
    by code_simp
  from C8_similarity_total_bounded [of window_backend black_frame small_frame]
    C8_similarity_total_bounded [of window_backend black_frame white_frame]
    C8_similarity_total_bounded [of window_backend small_frame small_frame]
    C8_similarity_total_bounded [of window_backend black_frame black_frame]
    h1 h2 h3 h4 h5 h6
  show ?thesis by blast
qed

subsection \<open>Claims about the component classifier\<close>

text \<open>
  C3. For every list of frames (valid addresses of the store), the aggregate returned
  by \<open>detect_components\<close> has \<open>doors_open + doors_closed\<close> equal to the sum of the lengths
  of the per-frame \<open>door_boxes\<close> lists, both as detected on the frames and as recorded in
  the annotations; the lengths of the pooled engine and wagon lists are the sums of the
  per-frame detection counts, and these are the totals written by
  \<open>total_components\<close>.
\<close>

theorem C3_counts:
  assumes "\<forall>a \<in> set fs. a < length st"
  shows "doors_open (snd (detect_components B st fs)) +
           doors_closed (snd (detect_components B st fs)) =
           sum_list (map (\<lambda>a. length (door_boxes (detect_doors B (st ! a)))) fs) \<and>
         doors_open (snd (detect_components B st fs)) +
           doors_closed (snd (detect_components B st fs)) =
           sum_list (map (\<lambda>d. length (door_boxes d))
             (map ann_doors (annotations (snd (detect_components B st fs))))) \<and>
         length (engines (snd (detect_components B st fs))) =
           sum_list (map (\<lambda>a. length (detect_engines B (st ! a))) fs) \<and>
         length (wagons (snd (detect_components B st fs))) =
           sum_list (map (\<lambda>a. length (detect_wagons B (st ! a))) fs) \<and>
         total_components (snd (detect_components B st fs)) =
           (sum_list (map (\<lambda>a. length (door_boxes (detect_doors B (st ! a)))) fs),
            length (engines (snd (detect_components B st fs))),
            length (wagons (snd (detect_components B st fs))))"
proof -
  note R = components_loop_results [OF assms, of B 0
      "\<lparr>doors_open = 0, doors_closed = 0, engines = [], wagons = [], annotations = []\<rparr>",
      folded detect_components_def]
  have doors: "doors_open (snd (detect_components B st fs)) +
           doors_closed (snd (detect_components B st fs)) =
           sum_list (map (\<lambda>a. length (door_boxes (detect_doors B (st ! a)))) fs)"
    using R by (simp add: sum_list_addf [symmetric] detect_doors_counts)
  have anns: "map ann_doors (annotations (snd (detect_components B st fs))) =
      map (\<lambda>a. detect_doors B (st ! a)) fs"
    using R by simp
  have eng: "length (engines (snd (detect_components B st fs))) =
           sum_list (map (\<lambda>a. length (detect_engines B (st ! a))) fs)"
    using R by (simp add: length_concat comp_def)
  have wag: "length (wagons (snd (detect_components B st fs))) =
           sum_list (map (\<lambda>a. length (detect_wagons B (st ! a))) fs)"
    using R by (simp add: length_concat comp_def)
  show ?thesis
    unfolding anns using doors eng wag
    by (simp add: total_components_def comp_def)
qed

theorem C3_counts_witness:
  "doors_open (snd (detect_components toy_backend [door_frame, triangle_frame] [0, 1, 0])) +
     doors_closed (snd (detect_components toy_backend [door_frame, triangle_frame] [0, 1, 0])) =
     sum_list (map (\<lambda>a. length (door_boxes (detect_doors toy_backend
        ([door_frame, triangle_frame] ! a)))) [0, 1, 0]) \<and>
   length (engines (snd (detect_components toy_backend [door_frame, triangle_frame] [0, 1, 0]))) =
     sum_list (map (\<lambda>a. length (detect_engines toy_backend
        ([door_frame, triangle_frame] ! a))) [0, 1, 0]) \<and>
   length (wagons (snd (detect_components toy_backend [door_frame, triangle_frame] [0, 1, 0]))) =
     sum_list (map (\<lambda>a. length (detect_wagons toy_backend
        ([door_frame, triangle_frame] ! a))) [0, 1, 0])"
proof -
  have h: "\<forall>a \<in> set [0, 1, 0]. a < length [door_frame, triangle_frame]"
    by simp
  from C3_counts [OF h, of toy_backend] h show ?thesis
    by blast
qed

text \<open>
  C6 (as the specification states it, refuted). A contour with a bounding rectangle of
  40 by 40 has a bounding-box area of 1600, inside the interval from 1000 to 10000, and
  a width between 0.3 and 3 times its height, so the filter of the claim accepts it. The
  code filters on the area the contour encloses, here 760.5, and reports no door.
\<close>

theorem C6_bounding_box_area_counterexample:
  "spec_door_candidate toy_backend ((0, 0, 40, 40), 1521 / 2) \<and>
   find_contours toy_backend triangle_frame = [((0, 0, 40, 40), 1521 / 2)] \<and>
   door_boxes (detect_doors toy_backend triangle_frame) = []"
  by (simp add: spec_door_candidate_def toy_backend_def triangle_frame_def detect_doors_def
      door_like_def)

text \<open>
  C6 (amended). For every frame the door detector returns, in contour order, exactly
  the contours whose enclosed area (\<^verbatim>\<open>cv2.contourArea\<close>) lies strictly between 1000 and
  10000 and whose bounding width \<open>w\<close> and height \<open>h\<close> satisfy \<open>w > 0.3 h\<close> and \<open>w < 3 h\<close>,
  each with its bounding rectangle and its area; each is open when the crop of the frame
  at its bounding rectangle is non-empty and has a variance above 1000, and closed
  otherwise; the two counters count the open and the closed ones.
\<close>

theorem C6_door_detector:
  "door_boxes (detect_doors B frame) =
     map (door_info_of B frame) (filter (door_like B) (find_contours B frame)) \<and>
   open_count (detect_doors B frame) =
     length (filter (\<lambda>d. status d = Open) (door_boxes (detect_doors B frame))) \<and>
   closed_count (detect_doors B frame) =
     length (filter (\<lambda>d. status d = Closed) (door_boxes (detect_doors B frame))) \<and>
   (door_like B c \<longleftrightarrow>
      1000 < contourArea B c \<and> contourArea B c < 10000 \<and>
      (of_int (fst (snd (snd (boundingRect B c)))) :: rat) >
         (3 / 10) * of_int (snd (snd (snd (boundingRect B c)))) \<and>
      fst (snd (snd (boundingRect B c))) < 3 * snd (snd (snd (boundingRect B c)))) \<and>
   bbox_of (door_info_of B frame c) = boundingRect B c \<and>
   area (door_info_of B frame c) = contourArea B c \<and>
   (status (door_info_of B frame c) = Open \<longleftrightarrow>
      roi_size B (crop B frame (boundingRect B c)) \<noteq> 0 \<and>
      roi_variance B (crop B frame (boundingRect B c)) > 1000) \<and>
   (status (door_info_of B frame c) = Closed \<longleftrightarrow>
      roi_size B (crop B frame (boundingRect B c)) = 0 \<or>
      roi_variance B (crop B frame (boundingRect B c)) \<le> 1000)"
proof -
  have boxes: "door_boxes (detect_doors B frame) =
     map (door_info_of B frame) (filter (door_like B) (find_contours B frame))"
    by (simp add: detect_doors_def doors_loop_boxes)
  have opn: "open_count (detect_doors B frame) =
     length (filter (\<lambda>d. status d = Open) (door_boxes (detect_doors B frame)))"
    unfolding boxes by (simp add: detect_doors_def doors_loop_open)
  have cls: "closed_count (detect_doors B frame) =
     length (filter (\<lambda>d. status d = Closed) (door_boxes (detect_doors B frame)))"
    unfolding boxes by (simp add: detect_doors_def doors_loop_closed)
  have like: "door_like B c \<longleftrightarrow>
      1000 < contourArea B c \<and> contourArea B c < 10000 \<and>
      (of_int (fst (snd (snd (boundingRect B c)))) :: rat) >
         (3 / 10) * of_int (snd (snd (snd (boundingRect B c)))) \<and>
      fst (snd (snd (boundingRect B c))) < 3 * snd (snd (snd (boundingRect B c)))"
    by (cases "boundingRect B c") (simp add: door_like_def mult.commute)
  have st: "status (door_info_of B frame c) = Open \<longleftrightarrow>
      roi_size B (crop B frame (boundingRect B c)) \<noteq> 0 \<and>
      roi_variance B (crop B frame (boundingRect B c)) > 1000"
    by (simp add: door_info_of_def classify_door_status_def)
  have st2: "status (door_info_of B frame c) = Closed \<longleftrightarrow>
      roi_size B (crop B frame (boundingRect B c)) = 0 \<or>
      roi_variance B (crop B frame (boundingRect B c)) \<le> 1000"
    by (auto simp: door_info_of_def classify_door_status_def)
  show ?thesis
    using boxes opn cls like st st2 by (simp add: door_info_of_def)
qed

theorem C6_door_detector_witness:
  "door_boxes (detect_doors toy_backend door_frame) =
     [\<lparr>bbox_of = (10, 20, 60, 120), status = Open, area = 6000\<rparr>] \<and>
   open_count (detect_doors toy_backend door_frame) = 1 \<and>
   closed_count (detect_doors toy_backend door_frame) = 0"
proof -
  have c: "find_contours toy_backend door_frame = [((10, 20, 60, 120), 6000)]"
    by (simp add: toy_backend_def door_frame_def)
  have l: "door_like toy_backend ((10, 20, 60, 120), 6000)"
    by (simp add: door_like_def toy_backend_def)
  have i: "door_info_of toy_backend door_frame ((10, 20, 60, 120), 6000) =
      \<lparr>bbox_of = (10, 20, 60, 120), status = Open, area = 6000\<rparr>"
    by (simp add: door_info_of_def classify_door_status_def toy_backend_def door_frame_def)
  from C6_door_detector [of toy_backend door_frame "((10, 20, 60, 120), 6000)"]
  show ?thesis
    by (simp add: c l i)
qed

text \<open>
  C10. For every list of frames (valid addresses of the store), \<open>detect_components\<close>
  leaves every array that was in the store unchanged, in particular every input frame;
  the annotated frames are the newly allocated arrays; and the door counts and the pooled
  engine and wagon lists are those of the detectors run on the frames as they were
  before the call.
\<close>

theorem C10_frames_unchanged:
  assumes "\<forall>a \<in> set fs. a < length st"
  shows "take (length st) (fst (detect_components B st fs)) = st \<and>
         (\<forall>a \<in> set fs. fst (detect_components B st fs) ! a = st ! a) \<and>
         map annotated_frame (annotations (snd (detect_components B st fs))) =
           [length st ..< length st + length fs] \<and>
         doors_open (snd (detect_components B st fs)) =
           sum_list (map (\<lambda>a. open_count (detect_doors B (st ! a))) fs) \<and>
         doors_closed (snd (detect_components B st fs)) =
           sum_list (map (\<lambda>a. closed_count (detect_doors B (st ! a))) fs) \<and>
         engines (snd (detect_components B st fs)) =
           concat (map (\<lambda>a. detect_engines B (st ! a)) fs) \<and>
         wagons (snd (detect_components B st fs)) =
           concat (map (\<lambda>a. detect_wagons B (st ! a)) fs)"
proof -
  note R = components_loop_results [OF assms, of B 0
      "\<lparr>doors_open = 0, doors_closed = 0, engines = [], wagons = [], annotations = []\<rparr>",
      folded detect_components_def]
  have "components_loop B 0 fs
       (st, \<lparr>doors_open = 0, doors_closed = 0, engines = [], wagons = [], annotations = []\<rparr>) =
       (fst (detect_components B st fs), snd (detect_components B st fs))"
    by (simp add: detect_components_def)
  from components_loop_store [OF this]
  have tk: "take (length st) (fst (detect_components B st fs)) = st"
    by simp
  have same: "\<forall>a \<in> set fs. fst (detect_components B st fs) ! a = st ! a"
    using prefix_nth [OF tk] assms by simp
  have addrs: "map annotated_frame (annotations (snd (detect_components B st fs))) =
           [length st ..< length st + length fs]"
    using components_loop_annotated [of B 0 fs st
      "\<lparr>doors_open = 0, doors_closed = 0, engines = [], wagons = [], annotations = []\<rparr>"]
    by (simp add: detect_components_def)
  show ?thesis
    using tk same addrs R by simp
qed

theorem C10_frames_unchanged_witness:
  "fst (detect_components toy_backend [door_frame] [0, 0]) =
     [door_frame, ([((10, 20, 60, 120), 6000)], 1500, 4),
      ([((10, 20, 60, 120), 6000)], 1500, 4)] \<and>
   take (length [door_frame]) (fst (detect_components toy_backend [door_frame] [0, 0])) =
     [door_frame] \<and>
   doors_open (snd (detect_components toy_backend [door_frame] [0, 0])) =
     sum_list (map (\<lambda>a. open_count (detect_doors toy_backend ([door_frame] ! a))) [0, 0])"
proof -
  have h: "\<forall>a \<in> set [0, 0]. a < length [door_frame]"
    by simp
  have v: "fst (detect_components toy_backend [door_frame] [0, 0]) =
     [door_frame, ([((10, 20, 60, 120), 6000)], 1500, 4),
      ([((10, 20, 60, 120), 6000)], 1500, 4)]"
    by (simp add: detect_components_def detect_doors_def detect_engines_def
        detect_wagons_def annotate_frame_def door_like_def engine_like_def wagon_like_def
        door_info_of_def classify_door_status_def toy_backend_def door_frame_def Let_def)
  from C10_frames_unchanged [OF h, of toy_backend] h v show ?thesis
    by blast
qed

end
